theory Spec2Isabelle
  imports Complex_Main
begin

unbundle bit_operations_syntax

section \<open>Values, errors and Python's built-in operators\<close>

text \<open>
  The machine of \<^verbatim>\<open>script.py\<close> stores Python numbers. A Python \<^verbatim>\<open>int\<close> is
  unbounded and is modelled by \<open>int\<close>. Every other value a register can hold (the
  \<^verbatim>\<open>float\<close> that \<^verbatim>\<open>a / b\<close> or a negative power returns) is kept in the type
  parameter \<open>'x\<close>: nothing is assumed about its arithmetic.
\<close>

datatype 'x val = VInt int | VOther 'x

text \<open>
  The exceptions of the program: the \<^verbatim>\<open>ValueError\<close> it raises itself, with its
  message; the \<^verbatim>\<open>IndexError\<close> of a list access out of range; and the exceptions
  a built-in operator may raise.
\<close>

datatype builtin_error = ZeroDivisionError | OverflowError | TypeError

datatype error = ValueError string | IndexError | Builtin builtin_error

text \<open>
  What the program takes from Python and does not define itself:
  \<^item> \<open>operator\<close>: a built-in binary operator, named by its symbol, where its result
    is not an exact integer computation (an operand that is not an \<^verbatim>\<open>int\<close>, true
    division, a negative exponent);
  \<^item> \<open>eq_class\<close>: the class of a non-\<^verbatim>\<open>int\<close> value under \<^verbatim>\<open>==\<close>, which is how a
    \<^verbatim>\<open>dict\<close> compares keys: \<open>Inl n\<close> when the value equals the \<^verbatim>\<open>int\<close> \<open>n\<close>
    (\<^verbatim>\<open>2.0 == 2\<close>), a representative of its class otherwise. A \<^verbatim>\<open>dict\<close> also finds
    a key that is the very object it was stored with, so a value is always in its
    own class;
  \<^item> \<open>max_str_digits\<close>: the interpreter's limit on the decimal digits of an \<^verbatim>\<open>int\<close>
    that is converted to a string (\<^verbatim>\<open>sys.get_int_max_str_digits()\<close>): 4300 unless it
    was set otherwise, and 0 where there is no limit.
\<close>

record 'x builtins =
  operator :: "string \<Rightarrow> 'x val \<Rightarrow> 'x val \<Rightarrow> builtin_error + 'x val"
  eq_class :: "'x \<Rightarrow> int + 'x"
  max_str_digits :: nat

fun val_class :: "'x builtins \<Rightarrow> 'x val \<Rightarrow> int + 'x" where
  "val_class P (VInt n) = Inl n"
| "val_class P (VOther x) = eq_class P x"

text \<open>\<^verbatim>\<open>b == 0\<close>\<close>

definition eq_zero :: "'x builtins \<Rightarrow> 'x val \<Rightarrow> bool" where
  "eq_zero P b = (val_class P b = Inl 0)"

fun py_add :: "'x builtins \<Rightarrow> 'x val \<Rightarrow> 'x val \<Rightarrow> builtin_error + 'x val" where
  "py_add P (VInt m) (VInt n) = Inr (VInt (m + n))"
| "py_add P a b = operator P ''+'' a b"

fun py_sub :: "'x builtins \<Rightarrow> 'x val \<Rightarrow> 'x val \<Rightarrow> builtin_error + 'x val" where
  "py_sub P (VInt m) (VInt n) = Inr (VInt (m - n))"
| "py_sub P a b = operator P ''-'' a b"

fun py_mul :: "'x builtins \<Rightarrow> 'x val \<Rightarrow> 'x val \<Rightarrow> builtin_error + 'x val" where
  "py_mul P (VInt m) (VInt n) = Inr (VInt (m * n))"
| "py_mul P a b = operator P ''*'' a b"

text \<open>\<^verbatim>\<open>a / b\<close> is true division: also on two \<^verbatim>\<open>int\<close>s the result is a \<^verbatim>\<open>float\<close>.\<close>

definition py_truediv :: "'x builtins \<Rightarrow> 'x val \<Rightarrow> 'x val \<Rightarrow> builtin_error + 'x val" where
  "py_truediv P a b = operator P ''/'' a b"

text \<open>\<^verbatim>\<open>a % b\<close> on \<^verbatim>\<open>int\<close>s takes the sign of the divisor, as \<open>mod\<close> on \<open>int\<close> does.\<close>

fun py_mod :: "'x builtins \<Rightarrow> 'x val \<Rightarrow> 'x val \<Rightarrow> builtin_error + 'x val" where
  "py_mod P (VInt m) (VInt n) =
     (if n = 0 then Inl ZeroDivisionError else Inr (VInt (m mod n)))"
| "py_mod P a b = operator P ''%'' a b"

text \<open>\<^verbatim>\<open>a ** b\<close> on \<^verbatim>\<open>int\<close>s is an \<^verbatim>\<open>int\<close> only for an exponent that is not negative.\<close>

fun py_pow :: "'x builtins \<Rightarrow> 'x val \<Rightarrow> 'x val \<Rightarrow> builtin_error + 'x val" where
  "py_pow P (VInt m) (VInt n) =
     (if 0 \<le> n then Inr (VInt (m ^ nat n)) else operator P ''**'' (VInt m) (VInt n))"
| "py_pow P a b = operator P ''**'' a b"

fun py_and :: "'x builtins \<Rightarrow> 'x val \<Rightarrow> 'x val \<Rightarrow> builtin_error + 'x val" where
  "py_and P (VInt m) (VInt n) = Inr (VInt (m AND n))"
| "py_and P a b = operator P ''&'' a b"

fun py_or :: "'x builtins \<Rightarrow> 'x val \<Rightarrow> 'x val \<Rightarrow> builtin_error + 'x val" where
  "py_or P (VInt m) (VInt n) = Inr (VInt (m OR n))"
| "py_or P a b = operator P ''|'' a b"

text \<open>An exception of a built-in operator leaves the method that called it.\<close>

definition raised :: "builtin_error + 'x val \<Rightarrow> error + 'x val" where
  "raised r = (case r of Inl e \<Rightarrow> Inl (Builtin e) | Inr v \<Rightarrow> Inr v)"

text \<open>
  An f-string formats every value it shows before anything is printed. An \<^verbatim>\<open>int\<close> is
  converted to decimal, and the conversion raises \<^verbatim>\<open>ValueError\<close> when the \<^verbatim>\<open>int\<close> has
  more digits than the limit, that is when \<open>10 ^ limit \<le> \<bar>n\<bar>\<close>. Python accepts no
  limit below 640 digits and never checks a shorter string, hence the \<open>max\<close>. A
  \<^verbatim>\<open>float\<close> and a string always format.
\<close>

fun decimal :: "nat \<Rightarrow> string" where
  "decimal n =
     (if n < 10 then [''0123456789'' ! n]
      else decimal (n div 10) @ [''0123456789'' ! (n mod 10)])"

declare decimal.simps [simp del]

definition format_error :: "'x builtins \<Rightarrow> 'x val \<Rightarrow> error option" where
  "format_error P v =
     (case v of
        VInt n \<Rightarrow>
          if 0 < max_str_digits P \<and> 10 ^ max (max_str_digits P) 640 \<le> \<bar>n\<bar>
          then Some (ValueError (''Exceeds the limit ('' @ decimal (max_str_digits P) @
                 '' digits) for integer string conversion; '' @
                 ''use sys.set_int_max_str_digits() to increase the limit''))
          else None
      | VOther x \<Rightarrow> None)"

text \<open>
  The exception, if any, of formatting \<^verbatim>\<open>{instruction} {val_a}, {val_b}\<close>: the values
  are formatted from left to right.
\<close>

definition fstring_error :: "'x builtins \<Rightarrow> 'x val \<Rightarrow> 'x val \<Rightarrow> error option" where
  "fstring_error P val_a val_b =
     (case format_error P val_a of Some e \<Rightarrow> Some e | None \<Rightarrow> format_error P val_b)"

text \<open>
  \<^verbatim>\<open>xs[i]\<close> and \<^verbatim>\<open>xs[i] = v\<close> on a list: a negative index counts from the end, and an
  index outside \<open>[-len, len)\<close> raises \<^verbatim>\<open>IndexError\<close>.
\<close>

definition norm_index :: "'a list \<Rightarrow> int \<Rightarrow> int" where
  "norm_index xs i = (if i < 0 then i + int (length xs) else i)"

definition getitem :: "'a list \<Rightarrow> int \<Rightarrow> error + 'a" where
  "getitem xs i =
     (let j = norm_index xs i
      in if 0 \<le> j \<and> j < int (length xs) then Inr (xs ! nat j) else Inl IndexError)"

definition setitem :: "'a list \<Rightarrow> int \<Rightarrow> 'a \<Rightarrow> error + 'a list" where
  "setitem xs i v =
     (let j = norm_index xs i
      in if 0 \<le> j \<and> j < int (length xs) then Inr (xs[nat j := v]) else Inl IndexError)"

section \<open>The CPU\<close>

text \<open>
  A cache key is \<^verbatim>\<open>(instruction, val_a, val_b)\<close>. The \<^verbatim>\<open>dict\<close> finds a key by
  \<^verbatim>\<open>==\<close>, so the cache is a map from the class of a key to the key it was stored
  under and its result.
\<close>

type_synonym 'x key = "string \<times> 'x val \<times> 'x val"

type_synonym 'x key_class = "string \<times> (int + 'x) \<times> (int + 'x)"

fun key_class :: "'x builtins \<Rightarrow> 'x key \<Rightarrow> 'x key_class" where
  "key_class P (instruction, a, b) = (instruction, val_class P a, val_class P b)"

record 'x cpu =
  registers :: "'x val list"
  cache :: "'x key_class \<rightharpoonup> 'x key \<times> 'x val"

text \<open>\<^verbatim>\<open>__init__\<close>\<close>

definition init :: "'x cpu" where
  "init = \<lparr>registers = replicate 4 (VInt 0), cache = Map.empty\<rparr>"

definition load :: "'x cpu \<Rightarrow> int \<Rightarrow> 'x val \<Rightarrow> error + 'x cpu" where
  "load s reg_index v =
     (if 0 \<le> reg_index \<and> reg_index < int (length (registers s))
      then Inr (s\<lparr>registers := (registers s)[nat reg_index := v]\<rparr>)
      else Inl (ValueError ''Invalid register index''))"

definition get_register :: "'x cpu \<Rightarrow> int \<Rightarrow> error + 'x val" where
  "get_register s reg_index =
     (if 0 \<le> reg_index \<and> reg_index < int (length (registers s))
      then Inr (registers s ! nat reg_index)
      else Inl (ValueError ''Invalid register index''))"

subsection \<open>ALU operations\<close>

text \<open>
  The eight operations \<^verbatim>\<open>_alu_dispatch\<close> can call. (\<^verbatim>\<open>sqrt\<close> and \<^verbatim>\<open>log\<close> are never
  called and compute on \<^verbatim>\<open>float\<close>s only.) \<^verbatim>\<open>div\<close> and \<^verbatim>\<open>mod\<close> are \<open>div_op\<close> and
  \<open>mod_op\<close> here.
\<close>

definition add :: "'x builtins \<Rightarrow> 'x val \<Rightarrow> 'x val \<Rightarrow> error + 'x val" where
  "add P a b = raised (py_add P a b)"

definition sub :: "'x builtins \<Rightarrow> 'x val \<Rightarrow> 'x val \<Rightarrow> error + 'x val" where
  "sub P a b = raised (py_sub P a b)"

definition mul :: "'x builtins \<Rightarrow> 'x val \<Rightarrow> 'x val \<Rightarrow> error + 'x val" where
  "mul P a b = raised (py_mul P a b)"

definition div_op :: "'x builtins \<Rightarrow> 'x val \<Rightarrow> 'x val \<Rightarrow> error + 'x val" where
  "div_op P a b =
     (if eq_zero P b then Inl (ValueError ''Can't divide by zero'')
      else raised (py_truediv P a b))"

definition mod_op :: "'x builtins \<Rightarrow> 'x val \<Rightarrow> 'x val \<Rightarrow> error + 'x val" where
  "mod_op P a b =
     (if eq_zero P b then Inl (ValueError ''Can't divide by zero'')
      else raised (py_mod P a b))"

definition pow :: "'x builtins \<Rightarrow> 'x val \<Rightarrow> 'x val \<Rightarrow> error + 'x val" where
  "pow P a b = raised (py_pow P a b)"

definition logi_and :: "'x builtins \<Rightarrow> 'x val \<Rightarrow> 'x val \<Rightarrow> error + 'x val" where
  "logi_and P a b = raised (py_and P a b)"

definition logi_or :: "'x builtins \<Rightarrow> 'x val \<Rightarrow> 'x val \<Rightarrow> error + 'x val" where
  "logi_or P a b = raised (py_or P a b)"

text \<open>\<^verbatim>\<open>_alu_dispatch\<close>\<close>

definition alu_dispatch :: "'x builtins \<Rightarrow> string \<Rightarrow> 'x val \<Rightarrow> 'x val \<Rightarrow> error + 'x val" where
  "alu_dispatch P instruction a b =
     (if instruction = ''ADD'' then add P a b
      else if instruction = ''SUB'' then sub P a b
      else if instruction = ''MUL'' then mul P a b
      else if instruction = ''DIV'' then div_op P a b
      else if instruction = ''MOD'' then mod_op P a b
      else if instruction = ''POW'' then pow P a b
      else if instruction = ''AND'' then logi_and P a b
      else if instruction = ''OR'' then logi_or P a b
      else Inl (ValueError (''Unknown instruction: '' @ instruction)))"

subsection \<open>The control unit\<close>

text \<open>The two messages \<^verbatim>\<open>control_unit\<close> prints, with the values they show.\<close>

datatype 'x event = CacheHit string "'x val" "'x val" | CacheMiss string "'x val" "'x val"

text \<open>
  A call returns its result or the exception that left it, the state it leaves behind
  (an exception does not undo what was done before it) and what it printed. A message
  whose f-string raises is not printed, and the exception leaves the call before the
  cache is read or the ALU is called.
\<close>

type_synonym 'x outcome = "(error + 'x val) \<times> 'x cpu \<times> 'x event list"

text \<open>
  Step 5 of \<^verbatim>\<open>control_unit\<close>: the target register is the destination if one is given
  and \<^verbatim>\<open>reg_a_index\<close> otherwise, and the result is stored there.
\<close>

definition target_reg :: "int \<Rightarrow> int option \<Rightarrow> int" where
  "target_reg reg_a_index dest_reg_index =
     (case dest_reg_index of Some d \<Rightarrow> d | None \<Rightarrow> reg_a_index)"

definition store_result ::
  "'x cpu \<Rightarrow> int \<Rightarrow> int option \<Rightarrow> 'x val \<Rightarrow> 'x event list \<Rightarrow> 'x outcome" where
  "store_result s reg_a_index dest_reg_index result out =
     (case setitem (registers s) (target_reg reg_a_index dest_reg_index) result of
        Inl e \<Rightarrow> (Inl e, s, out)
      | Inr rs \<Rightarrow> (Inr result, s\<lparr>registers := rs\<rparr>, out))"

definition control_unit ::
  "'x builtins \<Rightarrow> 'x cpu \<Rightarrow> string \<Rightarrow> int \<Rightarrow> int \<Rightarrow> int option \<Rightarrow> 'x outcome" where
  "control_unit P s instruction reg_a_index reg_b_index dest_reg_index =
     (case getitem (registers s) reg_a_index of
        Inl e \<Rightarrow> (Inl e, s, [])
      | Inr val_a \<Rightarrow>
     (case getitem (registers s) reg_b_index of
        Inl e \<Rightarrow> (Inl e, s, [])
      | Inr val_b \<Rightarrow>
     (let cache_key = (instruction, val_a, val_b)
      in case cache s (key_class P cache_key) of
           Some (k, result) \<Rightarrow>
            (case fstring_error P val_a val_b of
               Some e \<Rightarrow> (Inl e, s, [])
             | None \<Rightarrow>
                 store_result s reg_a_index dest_reg_index result
                   [CacheHit instruction val_a val_b])
         | None \<Rightarrow>
            (case fstring_error P val_a val_b of
               Some e \<Rightarrow> (Inl e, s, [])
             | None \<Rightarrow>
            (case alu_dispatch P instruction val_a val_b of
               Inl e \<Rightarrow> (Inl e, s, [CacheMiss instruction val_a val_b])
             | Inr result \<Rightarrow>
                 store_result
                   (s\<lparr>cache := (cache s)(key_class P cache_key \<mapsto> (cache_key, result))\<rparr>)
                   reg_a_index dest_reg_index result
                   [CacheMiss instruction val_a val_b])))))"

subsection \<open>Sequences of calls\<close>

text \<open>
  A caller of the machine: it loads, reads and executes, and goes on after a call has
  raised. The states it can reach are the states of \<open>run\<close> from \<open>init\<close>.
\<close>

datatype 'x call = Load int "'x val" | Read int | Execute string int int "int option"

fun step :: "'x builtins \<Rightarrow> 'x cpu \<Rightarrow> 'x call \<Rightarrow> 'x cpu" where
  "step P s (Load reg_index v) = (case load s reg_index v of Inl e \<Rightarrow> s | Inr s' \<Rightarrow> s')"
| "step P s (Read reg_index) = s"
| "step P s (Execute instruction reg_a_index reg_b_index dest_reg_index) =
     fst (snd (control_unit P s instruction reg_a_index reg_b_index dest_reg_index))"

fun run :: "'x builtins \<Rightarrow> 'x cpu \<Rightarrow> 'x call list \<Rightarrow> 'x cpu" where
  "run P s [] = s"
| "run P s (c # cs) = run P (step P s c) cs"

text \<open>The instructions \<^verbatim>\<open>_alu_dispatch\<close> knows.\<close>

definition opcodes :: "string list" where
  "opcodes = [''ADD'', ''SUB'', ''MUL'', ''DIV'', ''MOD'', ''POW'', ''AND'', ''OR'']"

text \<open>
  The cache is consistent when every entry is stored under the class of its own key,
  for a known instruction, with the result the ALU computes for the key's operands.
\<close>

definition cache_ok :: "'x builtins \<Rightarrow> 'x cpu \<Rightarrow> bool" where
  "cache_ok P s =
     (\<forall>c instruction a b v. cache s c = Some ((instruction, a, b), v) \<longrightarrow>
        c = key_class P (instruction, a, b) \<and> instruction \<in> set opcodes \<and>
        alu_dispatch P instruction a b = Inr v)"

subsection \<open>An instance for concrete evaluation\<close>

text \<open>
  The theorems below hold for every \<open>'x builtins\<close>. Where one of them is applied to a
  concrete machine, the built-ins are these: a number that is not an \<^verbatim>\<open>int\<close> is an
  exact rational, with the four field operations (Python's \<^verbatim>\<open>float\<close> rounds, which is
  not modelled here), and it is equal to an \<^verbatim>\<open>int\<close> when it is integral. The limit on
  the digits of an \<^verbatim>\<open>int\<close> is Python's default. This is not Python's \<^verbatim>\<open>float\<close>
  arithmetic, and no statement about \<^verbatim>\<open>float\<close> results is derived from it.
\<close>

definition rational_operator :: "string \<Rightarrow> rat val \<Rightarrow> rat val \<Rightarrow> builtin_error + rat val" where
  "rational_operator opr a b =
     (let x = (case a of VInt m \<Rightarrow> of_int m | VOther q \<Rightarrow> q);
          y = (case b of VInt n \<Rightarrow> of_int n | VOther q \<Rightarrow> q)
      in if opr = ''+'' then Inr (VOther (x + y))
         else if opr = ''-'' then Inr (VOther (x - y))
         else if opr = ''*'' then Inr (VOther (x * y))
         else if opr = ''/'' then (if y = 0 then Inl ZeroDivisionError else Inr (VOther (x / y)))
         else Inl TypeError)"

definition rational :: "rat builtins" where
  "rational = \<lparr>operator = rational_operator,
               eq_class = (\<lambda>q. if q = of_int \<lfloor>q\<rfloor> then Inl \<lfloor>q\<rfloor> else Inr q),
               max_str_digits = 4300\<rparr>"

section \<open>Properties of the model\<close>

subsection \<open>Lists, the ALU and the cases of the control unit\<close>

lemma getitem_Inl: "getitem xs i = Inl e \<Longrightarrow> e = IndexError"
  by (auto simp: getitem_def Let_def split: if_splits)

lemma setitem_Inr:
  "setitem xs i v = Inr ys \<longleftrightarrow>
     (0 \<le> norm_index xs i \<and> norm_index xs i < int (length xs) \<and> ys = xs[nat (norm_index xs i) := v])"
  by (auto simp: setitem_def Let_def)

lemma setitem_Inl:
  "setitem xs i v = Inl e \<longleftrightarrow>
     (\<not> (0 \<le> norm_index xs i \<and> norm_index xs i < int (length xs)) \<and> e = IndexError)"
  by (auto simp: setitem_def Let_def)

lemma store_result_Inr:
  assumes "store_result s a d r out = (Inr r', s', ev)"
  shows "r' = r \<and> ev = out \<and>
         s' = s\<lparr>registers := (registers s)[nat (norm_index (registers s) (target_reg a d)) := r]\<rparr>
         \<and> setitem (registers s) (target_reg a d) r = Inr (registers s')"
  using assms by (auto simp: store_result_def setitem_Inr split: sum.splits)

lemma store_result_Inl:
  assumes "store_result s a d r out = (Inl e, s', ev)"
  shows "e = IndexError \<and> ev = out \<and> s' = s"
  using assms by (auto simp: store_result_def setitem_Inl split: sum.splits)

lemma alu_dispatch_unknown:
  "instruction \<notin> set opcodes \<Longrightarrow>
   alu_dispatch P instruction a b = Inl (ValueError (''Unknown instruction: '' @ instruction))"
  by (simp add: alu_dispatch_def opcodes_def)

lemma alu_dispatch_known:
  "alu_dispatch P instruction a b = Inr v \<Longrightarrow> instruction \<in> set opcodes"
  using alu_dispatch_unknown [of instruction P a b] by auto

lemma raised_ValueError [simp]: "raised r \<noteq> Inl (ValueError m)"
  by (simp add: raised_def split: sum.splits)

lemma raised_IndexError [simp]: "raised r \<noteq> Inl IndexError"
  by (simp add: raised_def split: sum.splits)

lemma alu_dispatch_div_zero:
  assumes "instruction = ''DIV'' \<or> instruction = ''MOD''"
  shows "alu_dispatch P instruction a b = Inl (ValueError ''Can't divide by zero'') \<longleftrightarrow> eq_zero P b"
  using assms by (auto simp: alu_dispatch_def div_op_def mod_op_def)

lemma control_unit_bad_a:
  "getitem (registers s) a = Inl e \<Longrightarrow> control_unit P s i a b d = (Inl e, s, [])"
  by (simp add: control_unit_def)

lemma control_unit_bad_b:
  "getitem (registers s) a = Inr va \<Longrightarrow> getitem (registers s) b = Inl e \<Longrightarrow>
   control_unit P s i a b d = (Inl e, s, [])"
  by (simp add: control_unit_def)

lemma control_unit_unprintable:
  "getitem (registers s) a = Inr va \<Longrightarrow> getitem (registers s) b = Inr vb \<Longrightarrow>
   fstring_error P va vb = Some e \<Longrightarrow>
   control_unit P s i a b d = (Inl e, s, [])"
  by (cases "cache s (key_class P (i, va, vb))") (auto simp: control_unit_def)

lemma control_unit_hit:
  "getitem (registers s) a = Inr va \<Longrightarrow> getitem (registers s) b = Inr vb \<Longrightarrow>
   fstring_error P va vb = None \<Longrightarrow>
   cache s (key_class P (i, va, vb)) = Some (k, r) \<Longrightarrow>
   control_unit P s i a b d = store_result s a d r [CacheHit i va vb]"
  by (simp add: control_unit_def)

lemma control_unit_miss_fail:
  "getitem (registers s) a = Inr va \<Longrightarrow> getitem (registers s) b = Inr vb \<Longrightarrow>
   fstring_error P va vb = None \<Longrightarrow>
   cache s (key_class P (i, va, vb)) = None \<Longrightarrow> alu_dispatch P i va vb = Inl e \<Longrightarrow>
   control_unit P s i a b d = (Inl e, s, [CacheMiss i va vb])"
  by (simp add: control_unit_def)

lemma control_unit_miss_ok:
  "getitem (registers s) a = Inr va \<Longrightarrow> getitem (registers s) b = Inr vb \<Longrightarrow>
   fstring_error P va vb = None \<Longrightarrow>
   cache s (key_class P (i, va, vb)) = None \<Longrightarrow> alu_dispatch P i va vb = Inr r \<Longrightarrow>
   control_unit P s i a b d =
     store_result (s\<lparr>cache := (cache s)(key_class P (i, va, vb) \<mapsto> ((i, va, vb), r))\<rparr>)
       a d r [CacheMiss i va vb]"
  by (simp add: control_unit_def)

lemma store_result_cache: "cache (fst (snd (store_result s a d r out))) = cache s"
  by (simp add: store_result_def split: sum.splits)

lemma cache_ok_insert:
  assumes "cache_ok P s" and "alu_dispatch P i va vb = Inr r"
  shows "cache_ok P (s\<lparr>cache := (cache s)(key_class P (i, va, vb) \<mapsto> ((i, va, vb), r))\<rparr>)"
  using assms alu_dispatch_known [OF assms(2)] by (auto simp: cache_ok_def)

lemma cache_ok_cong: "cache s' = cache s \<Longrightarrow> cache_ok P s' = cache_ok P s"
  by (simp add: cache_ok_def)

lemma cache_ok_control_unit:
  assumes ok: "cache_ok P s"
  shows "cache_ok P (fst (snd (control_unit P s i a b d)))"
proof (cases "getitem (registers s) a")
  case (Inl e)
  then show ?thesis using ok by (simp add: control_unit_bad_a)
next
  case a: (Inr va)
  show ?thesis
  proof (cases "getitem (registers s) b")
    case (Inl e)
    then show ?thesis using ok a by (simp add: control_unit_bad_b)
  next
    case b: (Inr vb)
    show ?thesis
    proof (cases "fstring_error P va vb")
      case (Some e)
      then show ?thesis using ok by (simp add: control_unit_unprintable [OF a b])
    next
      case f: None
      show ?thesis
      proof (cases "cache s (key_class P (i, va, vb))")
        case (Some e)
        then obtain k r where "cache s (key_class P (i, va, vb)) = Some (k, r)"
          by (cases e) simp
        then show ?thesis
          using ok
          by (simp add: control_unit_hit [OF a b f] cache_ok_cong [OF store_result_cache])
      next
        case None
        show ?thesis
        proof (cases "alu_dispatch P i va vb")
          case (Inl e)
          then show ?thesis using ok by (simp add: control_unit_miss_fail [OF a b f None])
        next
          case (Inr r)
          then show ?thesis
            using cache_ok_insert [OF ok Inr]
            by (simp add: control_unit_miss_ok [OF a b f None]
                cache_ok_cong [OF store_result_cache])
        qed
      qed
    qed
  qed
qed

lemma cache_ok_load: "cache_ok P s \<Longrightarrow> load s i v = Inr s' \<Longrightarrow> cache_ok P s'"
  by (auto simp: load_def cache_ok_def split: if_splits)

lemma cache_ok_step: "cache_ok P s \<Longrightarrow> cache_ok P (step P s c)"
proof (cases c)
  case (Load i v)
  assume "cache_ok P s"
  then show ?thesis using Load by (auto dest: cache_ok_load split: sum.splits)
next
  case (Read i)
  assume "cache_ok P s"
  then show ?thesis using Read by simp
next
  case (Execute i a b d)
  assume "cache_ok P s"
  then show ?thesis using Execute by (simp add: cache_ok_control_unit)
qed

lemma cache_ok_run: "cache_ok P s \<Longrightarrow> cache_ok P (run P s cs)"
  by (induction cs arbitrary: s) (simp_all add: cache_ok_step)

lemma cache_ok_init: "cache_ok P init"
  by (simp add: cache_ok_def init_def)

lemma control_unit_Inr:
  assumes "control_unit P s i a b d = (Inr r, s', ev)"
  obtains va vb where
    "getitem (registers s) a = Inr va" and "getitem (registers s) b = Inr vb"
    and "fstring_error P va vb = None"
    and "setitem (registers s) (target_reg a d) r = Inr (registers s')"
    and "(\<exists>k. cache s (key_class P (i, va, vb)) = Some (k, r) \<and> cache s' = cache s
              \<and> ev = [CacheHit i va vb])
         \<or> (cache s (key_class P (i, va, vb)) = None \<and> alu_dispatch P i va vb = Inr r
              \<and> cache s' = (cache s)(key_class P (i, va, vb) \<mapsto> ((i, va, vb), r))
              \<and> ev = [CacheMiss i va vb])"
proof (cases "getitem (registers s) a")
  case (Inl e)
  then show ?thesis using assms by (simp add: control_unit_bad_a)
next
  case a: (Inr va)
  show ?thesis
  proof (cases "getitem (registers s) b")
    case (Inl e)
    then show ?thesis using assms a by (simp add: control_unit_bad_b)
  next
    case b: (Inr vb)
    show ?thesis
    proof (cases "fstring_error P va vb")
      case (Some e)
      then show ?thesis using assms by (simp add: control_unit_unprintable [OF a b])
    next
      case f: None
      show ?thesis
      proof (cases "cache s (key_class P (i, va, vb))")
        case (Some e)
        then obtain k r0 where hit: "cache s (key_class P (i, va, vb)) = Some (k, r0)"
          by (cases e) simp
        from assms have "store_result s a d r0 [CacheHit i va vb] = (Inr r, s', ev)"
          by (simp add: control_unit_hit [OF a b f hit])
        from store_result_Inr [OF this]
        have "r0 = r" and "ev = [CacheHit i va vb]" and "cache s' = cache s"
          and "setitem (registers s) (target_reg a d) r = Inr (registers s')"
          by auto
        with hit show ?thesis by (intro that [OF a b f]) blast+
      next
        case None
        show ?thesis
        proof (cases "alu_dispatch P i va vb")
          case (Inl e)
          then show ?thesis using assms by (simp add: control_unit_miss_fail [OF a b f None])
        next
          case (Inr r0)
          from assms have "store_result
              (s\<lparr>cache := (cache s)(key_class P (i, va, vb) \<mapsto> ((i, va, vb), r0))\<rparr>)
              a d r0 [CacheMiss i va vb] = (Inr r, s', ev)"
            by (simp add: control_unit_miss_ok [OF a b f None Inr])
          from store_result_Inr [OF this]
          have "r0 = r" and "ev = [CacheMiss i va vb]"
            and "cache s' = (cache s)(key_class P (i, va, vb) \<mapsto> ((i, va, vb), r))"
            and "setitem (registers s) (target_reg a d) r = Inr (registers s')"
            by auto
          with None Inr show ?thesis by (intro that [OF a b f]) blast+
        qed
      qed
    qed
  qed
qed

lemma control_unit_registers_Inl:
  "control_unit P s i a b d = (Inl e, s', ev) \<Longrightarrow> registers s' = registers s"
  by (auto simp: control_unit_def store_result_def Let_def split: sum.splits option.splits)

subsection \<open>Register indices\<close>

text \<open>
  \<^verbatim>\<open>load\<close> and \<^verbatim>\<open>get_register\<close> check the index themselves and accept exactly
  \<open>0 \<le> i < len\<close>; \<^verbatim>\<open>control_unit\<close> leaves the check to the list, which also accepts
  \<open>- len \<le> i < 0\<close>. The machine always has four registers.
\<close>

lemma load_fails_iff:
  "load s i v = Inl (ValueError ''Invalid register index'')
     \<longleftrightarrow> \<not> (0 \<le> i \<and> i < int (length (registers s)))"
  by (simp add: load_def)

lemma load_succeeds_iff:
  "(\<exists>s'. load s i v = Inr s') \<longleftrightarrow> 0 \<le> i \<and> i < int (length (registers s))"
  by (simp add: load_def)

lemma get_register_fails_iff:
  "get_register s i = Inl (ValueError ''Invalid register index'')
     \<longleftrightarrow> \<not> (0 \<le> i \<and> i < int (length (registers s)))"
  by (simp add: get_register_def)

lemma get_register_succeeds_iff:
  "get_register s i = Inr (registers s ! nat i)
     \<longleftrightarrow> 0 \<le> i \<and> i < int (length (registers s))"
  by (simp add: get_register_def)

lemma getitem_fails_iff:
  "getitem xs i = Inl IndexError \<longleftrightarrow> \<not> (- int (length xs) \<le> i \<and> i < int (length xs))"
  by (auto simp: getitem_def norm_index_def)

lemma control_unit_index_error:
  assumes "\<not> (- int (length (registers s)) \<le> a \<and> a < int (length (registers s)))
           \<or> \<not> (- int (length (registers s)) \<le> b \<and> b < int (length (registers s)))"
  shows "control_unit P s i a b d = (Inl IndexError, s, [])"
proof (cases "getitem (registers s) a")
  case (Inl e)
  with getitem_Inl [OF Inl] show ?thesis by (simp add: control_unit_bad_a)
next
  case (Inr va)
  then have "- int (length (registers s)) \<le> a \<and> a < int (length (registers s))"
    using getitem_fails_iff [of "registers s" a] by auto
  with assms have "getitem (registers s) b = Inl IndexError"
    by (simp only: getitem_fails_iff) simp
  from control_unit_bad_b [OF Inr this] show ?thesis .
qed

lemma length_registers_control_unit:
  "length (registers (fst (snd (control_unit P s i a b d)))) = length (registers s)"
  by (auto simp: control_unit_def store_result_def setitem_def Let_def
      split: sum.splits option.splits)

lemma length_registers_step: "length (registers (step P s c)) = length (registers s)"
  by (cases c) (auto simp: length_registers_control_unit load_def split: sum.splits if_splits)

lemma length_registers_run: "length (registers (run P s cs)) = length (registers s)"
  by (induction cs arbitrary: s) (simp_all add: length_registers_step)

lemma four_registers: "length (registers (run P init calls)) = 4"
  by (simp add: length_registers_run init_def)

subsection \<open>Calls that return\<close>

text \<open>
  On \<^verbatim>\<open>int\<close> operands, with registers that exist, the instructions that stay within
  \<^verbatim>\<open>int\<close> always return a result: a call fails only on an index, an unknown
  instruction, a zero divisor or an exception of a built-in operator.
\<close>

lemma alu_dispatch_ints:
  assumes "instruction \<in> {''ADD'', ''SUB'', ''MUL'', ''AND'', ''OR''}
           \<or> instruction = ''MOD'' \<and> n \<noteq> 0 \<or> instruction = ''POW'' \<and> 0 \<le> n"
  shows "\<exists>k. alu_dispatch P instruction (VInt m) (VInt n) = Inr (VInt k)"
  using assms
  by (auto simp: alu_dispatch_def add_def sub_def mul_def mod_op_def pow_def logi_and_def
      logi_or_def raised_def eq_zero_def)

lemma store_result_returns:
  assumes "- int (length (registers s)) \<le> target_reg a d"
    and "target_reg a d < int (length (registers s))"
  shows "\<exists>s'. store_result s a d r out = (Inr r, s', out)"
  using assms by (auto simp: store_result_def setitem_def norm_index_def)

lemma format_error_small: "\<bar>n\<bar> < 1000 \<Longrightarrow> format_error P (VInt n) = None"
proof -
  assume "\<bar>n\<bar> < 1000"
  also have "(1000::int) = 10 ^ 3" by simp
  also have "(10::int) ^ 3 \<le> 10 ^ max (max_str_digits P) 640"
    by (rule power_increasing) simp_all
  finally show ?thesis by (simp add: format_error_def)
qed

lemma format_error_no_limit: "max_str_digits P = 0 \<Longrightarrow> format_error P v = None"
  by (simp add: format_error_def split: val.splits)

text \<open>
  An operand of more digits than the limit: the message cannot be formatted, and the call
  raises the \<^verbatim>\<open>ValueError\<close> of the conversion, whatever the instruction and the cache,
  with nothing printed and nothing changed.
\<close>

lemma control_unit_too_many_digits:
  assumes "getitem (registers s) a = Inr va" and "getitem (registers s) b = Inr vb"
    and "va = VInt n \<or> vb = VInt n"
    and "0 < max_str_digits P" and "10 ^ max (max_str_digits P) 640 \<le> \<bar>n\<bar>"
  shows "control_unit P s i a b d
           = (Inl (ValueError (''Exceeds the limit ('' @ decimal (max_str_digits P) @
                 '' digits) for integer string conversion; '' @
                 ''use sys.set_int_max_str_digits() to increase the limit'')), s, [])"
proof -
  have "fstring_error P va vb
          = Some (ValueError (''Exceeds the limit ('' @ decimal (max_str_digits P) @
                 '' digits) for integer string conversion; '' @
                 ''use sys.set_int_max_str_digits() to increase the limit''))"
    using assms(3,4,5)
    by (auto simp: fstring_error_def format_error_def split: option.splits val.splits)
  from control_unit_unprintable [OF assms(1,2) this] show ?thesis .
qed

lemma control_unit_returns:
  assumes a: "getitem (registers s) a = Inr (VInt m)"
    and b: "getitem (registers s) b = Inr (VInt n)"
    and f: "fstring_error P (VInt m) (VInt n) = None"
    and t: "- int (length (registers s)) \<le> target_reg a d"
           "target_reg a d < int (length (registers s))"
    and i: "instruction \<in> {''ADD'', ''SUB'', ''MUL'', ''AND'', ''OR''}
            \<or> instruction = ''MOD'' \<and> n \<noteq> 0 \<or> instruction = ''POW'' \<and> 0 \<le> n"
  shows "\<exists>r s' ev. control_unit P s instruction a b d = (Inr r, s', ev)"
proof (cases "cache s (key_class P (instruction, VInt m, VInt n))")
  case (Some e)
  then obtain k r where hit: "cache s (key_class P (instruction, VInt m, VInt n)) = Some (k, r)"
    by (cases e) simp
  from store_result_returns [of s a d r, OF t] show ?thesis
    unfolding control_unit_hit [OF a b f hit] by blast
next
  case None
  from alu_dispatch_ints [OF i] obtain k where
    r: "alu_dispatch P instruction (VInt m) (VInt n) = Inr (VInt k)" by blast
  let ?s = "s\<lparr>cache := (cache s)(key_class P (instruction, VInt m, VInt n)
                                \<mapsto> ((instruction, VInt m, VInt n), VInt k))\<rparr>"
  have "- int (length (registers ?s)) \<le> target_reg a d"
    and "target_reg a d < int (length (registers ?s))" using t by simp_all
  from store_result_returns [of ?s a d "VInt k", OF this] show ?thesis
    unfolding control_unit_miss_ok [OF a b f None r] by blast
qed

subsection \<open>The cache of a reachable state\<close>

lemma cache_ok_reachable: "cache_ok P (run P init calls)"
  by (rule cache_ok_run [OF cache_ok_init])

lemma cache_ok_no_zero_divisor:
  assumes "cache_ok P s" and "instruction = ''DIV'' \<or> instruction = ''MOD''"
    and "eq_zero P vb"
  shows "cache s (key_class P (instruction, va, vb)) = None"
proof (rule ccontr)
  assume "cache s (key_class P (instruction, va, vb)) \<noteq> None"
  then obtain i' a' b' v where
    e: "cache s (key_class P (instruction, va, vb)) = Some ((i', a', b'), v)"
    by (cases "cache s (key_class P (instruction, va, vb))") auto
  with assms(1) have k: "key_class P (instruction, va, vb) = key_class P (i', a', b')"
    and r: "alu_dispatch P i' a' b' = Inr v"
    unfolding cache_ok_def by blast+
  from k assms(3) have "i' = instruction" and "eq_zero P b'"
    by (simp_all add: eq_zero_def)
  with assms(2) r alu_dispatch_div_zero [of i' P a' b'] show False by simp
qed

lemma cache_ok_known:
  assumes "cache_ok P s" and "instruction \<notin> set opcodes"
  shows "cache s (key_class P (instruction, va, vb)) = None"
proof (rule ccontr)
  assume "cache s (key_class P (instruction, va, vb)) \<noteq> None"
  then obtain i' a' b' v where
    e: "cache s (key_class P (instruction, va, vb)) = Some ((i', a', b'), v)"
    by (cases "cache s (key_class P (instruction, va, vb))") auto
  with assms(1) have k: "key_class P (instruction, va, vb) = key_class P (i', a', b')"
    and r: "i' \<in> set opcodes"
    unfolding cache_ok_def by blast+
  with assms(2) show False by simp
qed

lemma control_unit_ValueError:
  assumes "fst (control_unit P s i a b d) = Inl (ValueError m)"
    and a: "getitem (registers s) a = Inr va" and b: "getitem (registers s) b = Inr vb"
    and f: "fstring_error P va vb = None"
  shows "alu_dispatch P i va vb = Inl (ValueError m)"
proof (cases "cache s (key_class P (i, va, vb))")
  case (Some e)
  then obtain k r where hit: "cache s (key_class P (i, va, vb)) = Some (k, r)"
    by (cases e) simp
  from assms(1) show ?thesis
    by (auto simp: control_unit_hit [OF a b f hit] store_result_def setitem_def Let_def
        split: sum.splits if_splits)
next
  case None
  show ?thesis
  proof (cases "alu_dispatch P i va vb")
    case (Inl e)
    with assms(1) show ?thesis by (simp add: control_unit_miss_fail [OF a b f None])
  next
    case (Inr r)
    with assms(1) show ?thesis
      by (auto simp: control_unit_miss_ok [OF a b f None] store_result_def setitem_def
          Let_def split: sum.splits if_splits)
  qed
qed

lemmas eval_defs = load_def init_def control_unit_def getitem_def norm_index_def
      alu_dispatch_def add_def sub_def mul_def div_op_def mod_op_def eq_zero_def
      raised_def store_result_def setitem_def target_reg_def opcodes_def rational_def
      fstring_error_def format_error_small

section \<open>The claims\<close>

text \<open>
  \<^bold>\<open>C1.\<close> The canonical scenario, call by call: from the fresh machine \<^verbatim>\<open>load(0, 10)\<close> and
  \<^verbatim>\<open>load(1, 5)\<close> give the registers \<open>[10, 5, 0, 0]\<close>; \<^verbatim>\<open>control_unit("ADD", 0, 1, 2)\<close>
  returns 15, gives \<open>[10, 5, 15, 0]\<close>, adds the cache entry of \<open>(ADD, 10, 5)\<close> with
  value 15 and prints a miss; the same call again returns 15, prints a hit and changes
  nothing; \<^verbatim>\<open>control_unit("MUL", 0, 1, 3)\<close> returns 50 and gives \<open>[10, 5, 15, 50]\<close>;
  \<^verbatim>\<open>control_unit("ADD", 2, 3, 0)\<close> returns 65 and gives \<open>[65, 5, 15, 50]\<close>.
\<close>

theorem canonical_scenario:
  "load init 0 (VInt 10)
     = Inr \<lparr>registers = [VInt 10, VInt 0, VInt 0, VInt 0], cache = Map.empty\<rparr>
   \<and> load \<lparr>registers = [VInt 10, VInt 0, VInt 0, VInt 0], cache = Map.empty\<rparr> 1 (VInt 5)
       = Inr \<lparr>registers = [VInt 10, VInt 5, VInt 0, VInt 0], cache = Map.empty\<rparr>
   \<and> control_unit P \<lparr>registers = [VInt 10, VInt 5, VInt 0, VInt 0], cache = Map.empty\<rparr>
         ''ADD'' 0 1 (Some 2)
       = (Inr (VInt 15),
          \<lparr>registers = [VInt 10, VInt 5, VInt 15, VInt 0],
           cache = [(''ADD'', Inl 10, Inl 5) \<mapsto> ((''ADD'', VInt 10, VInt 5), VInt 15)]\<rparr>,
          [CacheMiss ''ADD'' (VInt 10) (VInt 5)])
   \<and> control_unit P
         \<lparr>registers = [VInt 10, VInt 5, VInt 15, VInt 0],
          cache = [(''ADD'', Inl 10, Inl 5) \<mapsto> ((''ADD'', VInt 10, VInt 5), VInt 15)]\<rparr>
         ''ADD'' 0 1 (Some 2)
       = (Inr (VInt 15),
          \<lparr>registers = [VInt 10, VInt 5, VInt 15, VInt 0],
           cache = [(''ADD'', Inl 10, Inl 5) \<mapsto> ((''ADD'', VInt 10, VInt 5), VInt 15)]\<rparr>,
          [CacheHit ''ADD'' (VInt 10) (VInt 5)])
   \<and> control_unit P
         \<lparr>registers = [VInt 10, VInt 5, VInt 15, VInt 0],
          cache = [(''ADD'', Inl 10, Inl 5) \<mapsto> ((''ADD'', VInt 10, VInt 5), VInt 15)]\<rparr>
         ''MUL'' 0 1 (Some 3)
       = (Inr (VInt 50),
          \<lparr>registers = [VInt 10, VInt 5, VInt 15, VInt 50],
           cache = [(''ADD'', Inl 10, Inl 5) \<mapsto> ((''ADD'', VInt 10, VInt 5), VInt 15),
                    (''MUL'', Inl 10, Inl 5) \<mapsto> ((''MUL'', VInt 10, VInt 5), VInt 50)]\<rparr>,
          [CacheMiss ''MUL'' (VInt 10) (VInt 5)])
   \<and> control_unit P
         \<lparr>registers = [VInt 10, VInt 5, VInt 15, VInt 50],
          cache = [(''ADD'', Inl 10, Inl 5) \<mapsto> ((''ADD'', VInt 10, VInt 5), VInt 15),
                   (''MUL'', Inl 10, Inl 5) \<mapsto> ((''MUL'', VInt 10, VInt 5), VInt 50)]\<rparr>
         ''ADD'' 2 3 (Some 0)
       = (Inr (VInt 65),
          \<lparr>registers = [VInt 65, VInt 5, VInt 15, VInt 50],
           cache = [(''ADD'', Inl 10, Inl 5) \<mapsto> ((''ADD'', VInt 10, VInt 5), VInt 15),
                    (''MUL'', Inl 10, Inl 5) \<mapsto> ((''MUL'', VInt 10, VInt 5), VInt 50),
                    (''ADD'', Inl 15, Inl 50) \<mapsto> ((''ADD'', VInt 15, VInt 50), VInt 65)]\<rparr>,
          [CacheMiss ''ADD'' (VInt 15) (VInt 50)])"
  by (simp add: load_def init_def numeral_eq_Suc control_unit_def getitem_def norm_index_def
      alu_dispatch_def add_def mul_def raised_def store_result_def setitem_def target_reg_def
      fstring_error_def format_error_small)

text \<open>
  \<^bold>\<open>C2.\<close> Every register index outside \<open>[0, 4)\<close> is refused by \<^verbatim>\<open>load\<close>, by
  \<^verbatim>\<open>get_register\<close> and by \<^verbatim>\<open>control_unit\<close>. The two accessors do refuse it
  (\<open>load_fails_iff\<close>, \<open>get_register_fails_iff\<close>), and \<^verbatim>\<open>control_unit\<close> refuses an
  index outside \<open>[-4, 4)\<close> (\<open>control_unit_index_error\<close>). It has no check of its own,
  though, and the list takes a negative index from the end: after \<^verbatim>\<open>load(3, 7)\<close> the call
  \<^verbatim>\<open>control_unit("ADD", -1, 0)\<close> reads register 3, returns 7 and writes register 3.
\<close>

theorem control_unit_negative_index:
  "control_unit P (run P init [Load 3 (VInt 7)]) ''ADD'' (- 1) 0 None
     = (Inr (VInt 7),
        \<lparr>registers = [VInt 0, VInt 0, VInt 0, VInt 7],
         cache = [(''ADD'', Inl 7, Inl 0) \<mapsto> ((''ADD'', VInt 7, VInt 0), VInt 7)]\<rparr>,
        [CacheMiss ''ADD'' (VInt 7) (VInt 0)])"
  by (simp add: load_def init_def numeral_eq_Suc control_unit_def getitem_def norm_index_def
      alu_dispatch_def add_def raised_def store_result_def setitem_def target_reg_def
      fstring_error_def format_error_small)

text \<open>
  \<^bold>\<open>C3.\<close> A call of \<^verbatim>\<open>control_unit\<close> that has returned a result returns the same result
  whenever it is repeated on the same register contents with the cache it left: the
  repeated call prints a hit and ends in the state the first call ended in. That state has
  the cache of the first call again, so the same holds for every later repetition.
\<close>

theorem execute_idempotent:
  assumes "control_unit P s i a b d = (Inr r, s1, ev)"
    and "registers s2 = registers s" and "cache s2 = cache s1"
  shows "\<exists>va vb. getitem (registers s) a = Inr va \<and> getitem (registers s) b = Inr vb \<and>
           control_unit P s2 i a b d = (Inr r, s1, [CacheHit i va vb])"
proof -
  from assms(1) obtain va vb where
    a: "getitem (registers s) a = Inr va" and b: "getitem (registers s) b = Inr vb"
    and f: "fstring_error P va vb = None"
    and st: "setitem (registers s) (target_reg a d) r = Inr (registers s1)"
    and c: "\<exists>k. cache s1 (key_class P (i, va, vb)) = Some (k, r)"
    by (rule control_unit_Inr) auto
  from c obtain k where hit: "cache s2 (key_class P (i, va, vb)) = Some (k, r)"
    using assms(3) by auto
  have "control_unit P s2 i a b d = store_result s2 a d r [CacheHit i va vb]"
    using a b f hit assms(2) by (simp add: control_unit_hit)
  also have "\<dots> = (Inr r, s1, [CacheHit i va vb])"
    using st assms(2,3) by (simp add: store_result_def)
  finally show ?thesis using a b by blast
qed

theorem execute_idempotent_witness:
  "control_unit rational \<lparr>registers = [VInt 10, VInt 5, VInt 0, VInt 0], cache = Map.empty\<rparr>
     ''ADD'' 0 1 None
   = (Inr (VInt 15),
      \<lparr>registers = [VInt 15, VInt 5, VInt 0, VInt 0],
       cache = [(''ADD'', Inl 10, Inl 5) \<mapsto> ((''ADD'', VInt 10, VInt 5), VInt 15)]\<rparr>,
      [CacheMiss ''ADD'' (VInt 10) (VInt 5)])
   \<and> control_unit rational
       \<lparr>registers = [VInt 10, VInt 5, VInt 0, VInt 0],
        cache = [(''ADD'', Inl 10, Inl 5) \<mapsto> ((''ADD'', VInt 10, VInt 5), VInt 15)]\<rparr>
       ''ADD'' 0 1 None
   = (Inr (VInt 15),
      \<lparr>registers = [VInt 15, VInt 5, VInt 0, VInt 0],
       cache = [(''ADD'', Inl 10, Inl 5) \<mapsto> ((''ADD'', VInt 10, VInt 5), VInt 15)]\<rparr>,
      [CacheHit ''ADD'' (VInt 10) (VInt 5)])"
proof -
  let ?s = "\<lparr>registers = [VInt 10, VInt 5, VInt 0, VInt 0], cache = Map.empty\<rparr> :: rat cpu"
  let ?c = "[(''ADD'', Inl 10, Inl 5) \<mapsto> ((''ADD'', VInt 10, VInt 5), VInt (15::int) :: rat val)]"
  let ?s1 = "\<lparr>registers = [VInt 15, VInt 5, VInt 0, VInt 0], cache = ?c\<rparr>"
  let ?s2 = "\<lparr>registers = [VInt 10, VInt 5, VInt 0, VInt 0], cache = ?c\<rparr>"
  have first: "control_unit rational ?s ''ADD'' 0 1 None
                 = (Inr (VInt 15), ?s1, [CacheMiss ''ADD'' (VInt 10) (VInt 5)])"
    by (simp add: eval_defs)
  have regs: "registers ?s2 = registers ?s" and c: "cache ?s2 = cache ?s1"
    by simp_all
  from execute_idempotent [OF first regs c] first show ?thesis
    by (simp add: getitem_def norm_index_def)
qed

text \<open>
  \<^bold>\<open>C4.\<close> In a reachable state, with operand registers that can be read and operand
  values that the message of the call can show, \<^verbatim>\<open>DIV\<close> and \<^verbatim>\<open>MOD\<close> raise
  \<^verbatim>\<open>ValueError("Can't divide by zero")\<close> exactly when the value of \<^verbatim>\<open>reg_b_index\<close>
  equals 0; the call then leaves the registers and the cache as they were, and the cache
  has no entry for the key. (An operand that cannot be shown, an \<^verbatim>\<open>int\<close> of more digits
  than the interpreter converts, makes the call raise before the ALU is reached:
  \<open>control_unit_unprintable\<close>.)
\<close>

theorem division_by_zero:
  assumes "instruction = ''DIV'' \<or> instruction = ''MOD''"
    and "getitem (registers (run P init calls)) a = Inr va"
    and "getitem (registers (run P init calls)) b = Inr vb"
    and "fstring_error P va vb = None"
  shows "(fst (control_unit P (run P init calls) instruction a b d)
            = Inl (ValueError ''Can't divide by zero'') \<longleftrightarrow> eq_zero P vb) \<and>
         (eq_zero P vb \<longrightarrow>
            control_unit P (run P init calls) instruction a b d
              = (Inl (ValueError ''Can't divide by zero''), run P init calls,
                 [CacheMiss instruction va vb]) \<and>
            cache (run P init calls) (key_class P (instruction, va, vb)) = None)"
proof -
  let ?s = "run P init calls"
  have zero: "control_unit P ?s instruction a b d
              = (Inl (ValueError ''Can't divide by zero''), ?s, [CacheMiss instruction va vb])
              \<and> cache ?s (key_class P (instruction, va, vb)) = None"
    if z: "eq_zero P vb"
  proof -
    have none: "cache ?s (key_class P (instruction, va, vb)) = None"
      by (rule cache_ok_no_zero_divisor [OF cache_ok_reachable assms(1) z])
    have "alu_dispatch P instruction va vb = Inl (ValueError ''Can't divide by zero'')"
      by (simp add: alu_dispatch_div_zero [OF assms(1)] z)
    from control_unit_miss_fail [OF assms(2,3,4) none this] none show ?thesis by simp
  qed
  have "eq_zero P vb"
    if "fst (control_unit P ?s instruction a b d) = Inl (ValueError ''Can't divide by zero'')"
    using control_unit_ValueError [OF that assms(2,3,4)]
    by (simp add: alu_dispatch_div_zero [OF assms(1)])
  with zero show ?thesis by auto
qed

theorem division_by_zero_witness:
  "control_unit rational (run rational init [Load 0 (VInt 7)]) ''DIV'' 0 1 (Some 2)
     = (Inl (ValueError ''Can't divide by zero''), run rational init [Load 0 (VInt 7)],
        [CacheMiss ''DIV'' (VInt 7) (VInt 0)])
   \<and> cache (run rational init [Load 0 (VInt 7)]) (''DIV'', Inl 7, Inl 0) = None
   \<and> fst (control_unit rational (run rational init [Load 0 (VInt 7)]) ''DIV'' 1 0 (Some 2))
       \<noteq> Inl (ValueError ''Can't divide by zero'')"
proof -
  let ?s = "run rational init [Load 0 (VInt 7)]"
  have r: "registers ?s = [VInt 7, VInt 0, VInt 0, VInt 0]"
    by (simp add: load_def init_def numeral_eq_Suc)
  have a: "getitem (registers ?s) 0 = Inr (VInt 7)"
    and b: "getitem (registers ?s) 1 = Inr (VInt 0)"
    unfolding r by (simp_all add: getitem_def norm_index_def)
  have i: "''DIV'' = ''DIV'' \<or> ''DIV'' = ''MOD''" by simp
  have f: "fstring_error rational (VInt 7) (VInt 0) = None"
    and f': "fstring_error rational (VInt 0) (VInt 7) = None"
    by (simp_all add: fstring_error_def format_error_small)
  have z: "eq_zero rational (VInt 0)" and nz: "\<not> eq_zero rational (VInt 7)"
    by (simp_all add: eq_zero_def)
  from division_by_zero [OF i a b f, of "Some 2"] division_by_zero [OF i b a f', of "Some 2"]
    z nz
  show ?thesis by simp
qed

text \<open>
  \<^bold>\<open>C5.\<close> A call that fails on a register index changes nothing. \<^verbatim>\<open>load\<close> and
  \<^verbatim>\<open>get_register\<close> check before they touch the state, and \<^verbatim>\<open>control_unit\<close> changes
  nothing when an operand index is refused (\<open>control_unit_index_error\<close>). The destination
  is only looked at in the last step, after the cache has been written: on the fresh machine
  \<^verbatim>\<open>control_unit("ADD", 0, 1, 4)\<close> raises \<^verbatim>\<open>IndexError\<close> and leaves the entry of
  \<open>(ADD, 0, 0)\<close> in the cache.
\<close>

theorem control_unit_bad_destination:
  "control_unit P init ''ADD'' 0 1 (Some 4)
     = (Inl IndexError,
        \<lparr>registers = [VInt 0, VInt 0, VInt 0, VInt 0],
         cache = [(''ADD'', Inl 0, Inl 0) \<mapsto> ((''ADD'', VInt 0, VInt 0), VInt 0)]\<rparr>,
        [CacheMiss ''ADD'' (VInt 0) (VInt 0)])
   \<and> cache init (''ADD'', Inl 0, Inl 0) = None"
  by (simp add: init_def numeral_eq_Suc control_unit_def getitem_def norm_index_def
      alu_dispatch_def add_def raised_def store_result_def setitem_def target_reg_def
      fstring_error_def format_error_small)

text \<open>
  \<^bold>\<open>C6.\<close> After a call of \<^verbatim>\<open>control_unit\<close> that returned a result, with the operand
  values \<open>va\<close> and \<open>vb\<close>, the cache has an entry for the key \<open>(instruction, va, vb)\<close>
  (a map has one entry for a key at most), its value is the result returned, and the
  entry of every other key is as it was.
\<close>

theorem cache_entry_and_frame:
  assumes "control_unit P s i a b d = (Inr r, s', ev)"
    and "getitem (registers s) a = Inr va" and "getitem (registers s) b = Inr vb"
  shows "(\<exists>k. cache s' (key_class P (i, va, vb)) = Some (k, r)) \<and>
         (\<forall>c. c \<noteq> key_class P (i, va, vb) \<longrightarrow> cache s' c = cache s c)"
  using assms(1)
proof (rule control_unit_Inr)
  fix va' vb'
  assume "getitem (registers s) a = Inr va'" "getitem (registers s) b = Inr vb'"
  with assms(2,3) have [simp]: "va' = va" "vb' = vb" by simp_all
  assume "(\<exists>k. cache s (key_class P (i, va', vb')) = Some (k, r) \<and> cache s' = cache s
              \<and> ev = [CacheHit i va' vb'])
         \<or> (cache s (key_class P (i, va', vb')) = None \<and> alu_dispatch P i va' vb' = Inr r
              \<and> cache s' = (cache s)(key_class P (i, va', vb') \<mapsto> ((i, va', vb'), r))
              \<and> ev = [CacheMiss i va' vb'])"
  then show ?thesis by auto
qed

theorem cache_entry_and_frame_witness:
  "control_unit rational \<lparr>registers = [VInt 10, VInt 5, VInt 0, VInt 0], cache = Map.empty\<rparr>
     ''MUL'' 0 1 (Some 3)
   = (Inr (VInt 50),
      \<lparr>registers = [VInt 10, VInt 5, VInt 0, VInt 50],
       cache = [(''MUL'', Inl 10, Inl 5) \<mapsto> ((''MUL'', VInt 10, VInt 5), VInt 50)]\<rparr>,
      [CacheMiss ''MUL'' (VInt 10) (VInt 5)])
   \<and> (\<exists>k. [(''MUL'', Inl 10, Inl 5) \<mapsto> ((''MUL'', VInt 10, VInt 5), VInt 50 :: rat val)]
              (''MUL'', Inl 10, Inl 5) = Some (k, VInt 50))
   \<and> [(''MUL'', Inl 10, Inl 5) \<mapsto> ((''MUL'', VInt 10, VInt 5), VInt 50 :: rat val)]
        (''ADD'', Inl 10, Inl 5) = None"
proof -
  let ?s = "\<lparr>registers = [VInt 10, VInt 5, VInt 0, VInt 0], cache = Map.empty\<rparr> :: rat cpu"
  have call: "control_unit rational ?s ''MUL'' 0 1 (Some 3)
     = (Inr (VInt 50),
      \<lparr>registers = [VInt 10, VInt 5, VInt 0, VInt 50],
       cache = [(''MUL'', Inl 10, Inl 5) \<mapsto> ((''MUL'', VInt 10, VInt 5), VInt 50)]\<rparr>,
      [CacheMiss ''MUL'' (VInt 10) (VInt 5)])"
    by (simp add: eval_defs)
  have a: "getitem (registers ?s) 0 = Inr (VInt 10)"
    and b: "getitem (registers ?s) 1 = Inr (VInt 5)"
    by (simp_all add: getitem_def norm_index_def)
  from cache_entry_and_frame [OF call a b] call show ?thesis
    by simp
qed

text \<open>
  \<^bold>\<open>C7.\<close> In a reachable state, with operand registers that can be read and operand
  values that the message of the call can show, an instruction that is not one of the
  eight known ones raises \<^verbatim>\<open>ValueError\<close> with the message \<^verbatim>\<open>Unknown instruction: \<close> and
  its name, and the registers and the cache stay as they were. (An operand that cannot be
  shown makes the call raise before \<^verbatim>\<open>_alu_dispatch\<close> is reached:
  \<open>control_unit_unprintable\<close>.)
\<close>

theorem unknown_instruction:
  assumes "instruction \<notin> set opcodes"
    and "getitem (registers (run P init calls)) a = Inr va"
    and "getitem (registers (run P init calls)) b = Inr vb"
    and "fstring_error P va vb = None"
  shows "control_unit P (run P init calls) instruction a b d
           = (Inl (ValueError (''Unknown instruction: '' @ instruction)), run P init calls,
              [CacheMiss instruction va vb])"
  by (rule control_unit_miss_fail [OF assms(2,3,4)
        cache_ok_known [OF cache_ok_reachable assms(1)] alu_dispatch_unknown [OF assms(1)]])

theorem unknown_instruction_witness:
  "control_unit rational (run rational init [Load 0 (VInt 7)]) ''XOR'' 0 1 None
     = (Inl (ValueError ''Unknown instruction: XOR''), run rational init [Load 0 (VInt 7)],
        [CacheMiss ''XOR'' (VInt 7) (VInt 0)])"
proof -
  let ?s = "run rational init [Load 0 (VInt 7)]"
  have r: "registers ?s = [VInt 7, VInt 0, VInt 0, VInt 0]"
    by (simp add: load_def init_def numeral_eq_Suc)
  have a: "getitem (registers ?s) 0 = Inr (VInt 7)"
    and b: "getitem (registers ?s) 1 = Inr (VInt 0)"
    unfolding r by (simp_all add: getitem_def norm_index_def)
  have i: "''XOR'' \<notin> set opcodes" by (simp add: opcodes_def)
  have f: "fstring_error rational (VInt 7) (VInt 0) = None"
    by (simp add: fstring_error_def format_error_small)
  from unknown_instruction [OF i a b f, of None] show ?thesis by simp
qed

text \<open>
  \<^bold>\<open>C8.\<close> A call that returns a result \<open>r\<close> leaves the registers it found with \<open>r\<close>
  written into one of them and nothing else changed: into \<^verbatim>\<open>reg_a_index\<close> when no
  destination is given, and into the destination \<open>k\<close> when one is given (an index counted
  from the end when it is negative). So a source register changes only when it is the
  register written. A call that raises leaves all registers as they were.
\<close>

theorem destination_and_frame:
  "(control_unit P s i a b None = (Inr r, s', ev) \<longrightarrow>
      registers s' = (registers s)[nat (norm_index (registers s) a) := r] \<and>
      getitem (registers s') a = Inr r \<and>
      (\<forall>j. j \<noteq> nat (norm_index (registers s) a) \<longrightarrow> registers s' ! j = registers s ! j))
   \<and> (control_unit P s i a b (Some k) = (Inr r, s', ev) \<longrightarrow>
      registers s' = (registers s)[nat (norm_index (registers s) k) := r] \<and>
      getitem (registers s') k = Inr r \<and>
      (\<forall>j. j \<noteq> nat (norm_index (registers s) k) \<longrightarrow> registers s' ! j = registers s ! j))
   \<and> (control_unit P s i a b d = (Inl e, s', ev) \<longrightarrow> registers s' = registers s)"
proof -
  have written: "registers s' = (registers s)[nat (norm_index (registers s) t) := r] \<and>
      getitem (registers s') t = Inr r \<and>
      (\<forall>j. j \<noteq> nat (norm_index (registers s) t) \<longrightarrow> registers s' ! j = registers s ! j)"
    if "setitem (registers s) t r = Inr (registers s')" for t
    using that by (auto simp: setitem_Inr getitem_def norm_index_def split: if_splits)
  have none: "setitem (registers s) a r = Inr (registers s')"
    if "control_unit P s i a b None = (Inr r, s', ev)"
    using that by (rule control_unit_Inr) (simp add: target_reg_def)
  have some: "setitem (registers s) k r = Inr (registers s')"
    if "control_unit P s i a b (Some k) = (Inr r, s', ev)"
    using that by (rule control_unit_Inr) (simp add: target_reg_def)
  from written none some control_unit_registers_Inl [of P s i a b d e s' ev]
  show ?thesis by blast
qed

theorem destination_and_frame_witness:
  "control_unit rational \<lparr>registers = [VInt 10, VInt 5, VInt 0, VInt 0], cache = Map.empty\<rparr>
     ''ADD'' 0 1 (Some 2)
   = (Inr (VInt 15),
      \<lparr>registers = [VInt 10, VInt 5, VInt 15, VInt 0],
       cache = [(''ADD'', Inl 10, Inl 5) \<mapsto> ((''ADD'', VInt 10, VInt 5), VInt 15)]\<rparr>,
      [CacheMiss ''ADD'' (VInt 10) (VInt 5)])
   \<and> [VInt 10, VInt 5, VInt 15, VInt 0 :: rat val]
       = [VInt 10, VInt 5, VInt 0, VInt 0]
           [nat (norm_index [VInt 10, VInt 5, VInt 0, VInt 0 :: rat val] 2) := VInt 15]
   \<and> getitem [VInt 10, VInt 5, VInt 15, VInt 0 :: rat val] 2 = Inr (VInt 15)
   \<and> [VInt 10, VInt 5, VInt 15, VInt 0 :: rat val] ! 0 = [VInt 10, VInt 5, VInt 0, VInt 0] ! 0
   \<and> control_unit rational \<lparr>registers = [VInt 10, VInt 5, VInt 0, VInt 0], cache = Map.empty\<rparr>
       ''SUB'' 0 1 None
   = (Inr (VInt 5),
      \<lparr>registers = [VInt 5, VInt 5, VInt 0, VInt 0],
       cache = [(''SUB'', Inl 10, Inl 5) \<mapsto> ((''SUB'', VInt 10, VInt 5), VInt 5)]\<rparr>,
      [CacheMiss ''SUB'' (VInt 10) (VInt 5)])
   \<and> [VInt 5, VInt 5, VInt 0, VInt 0 :: rat val]
       = [VInt 10, VInt 5, VInt 0, VInt 0]
           [nat (norm_index [VInt 10, VInt 5, VInt 0, VInt 0 :: rat val] 0) := VInt 5]
   \<and> getitem [VInt 5, VInt 5, VInt 0, VInt 0 :: rat val] 0 = Inr (VInt 5)
   \<and> [VInt 5, VInt 5, VInt 0, VInt 0 :: rat val] ! 1 = [VInt 10, VInt 5, VInt 0, VInt 0] ! 1"
proof -
  let ?s = "\<lparr>registers = [VInt 10, VInt 5, VInt 0, VInt 0], cache = Map.empty\<rparr> :: rat cpu"
  let ?dest = "\<lparr>registers = [VInt 10, VInt 5, VInt 15, VInt 0],
       cache = [(''ADD'', Inl 10, Inl 5) \<mapsto> ((''ADD'', VInt 10, VInt 5), VInt (15::int) :: rat val)]\<rparr>"
  let ?dflt = "\<lparr>registers = [VInt 5, VInt 5, VInt 0, VInt 0],
       cache = [(''SUB'', Inl 10, Inl 5) \<mapsto> ((''SUB'', VInt 10, VInt 5), VInt (5::int) :: rat val)]\<rparr>"
  have dest: "control_unit rational ?s ''ADD'' 0 1 (Some 2)
                = (Inr (VInt 15), ?dest, [CacheMiss ''ADD'' (VInt 10) (VInt 5)])"
    by (simp add: eval_defs)
  have dflt: "control_unit rational ?s ''SUB'' 0 1 None
                = (Inr (VInt 5), ?dflt, [CacheMiss ''SUB'' (VInt 10) (VInt 5)])"
    by (simp add: eval_defs)
  from destination_and_frame
         [of rational ?s "''ADD''" 0 1 "VInt 15" ?dest "[CacheMiss ''ADD'' (VInt 10) (VInt 5)]" 2]
       dest
  have "registers ?dest = (registers ?s)[nat (norm_index (registers ?s) 2) := VInt 15]
        \<and> getitem (registers ?dest) 2 = Inr (VInt 15)
        \<and> registers ?dest ! 0 = registers ?s ! 0"
    by (simp add: norm_index_def)
  moreover
  from destination_and_frame
         [of rational ?s "''SUB''" 0 1 "VInt 5" ?dflt "[CacheMiss ''SUB'' (VInt 10) (VInt 5)]"]
       dflt
  have "registers ?dflt = (registers ?s)[nat (norm_index (registers ?s) 0) := VInt 5]
        \<and> getitem (registers ?dflt) 0 = Inr (VInt 5)
        \<and> registers ?dflt ! 1 = registers ?s ! 1"
    by (simp add: norm_index_def)
  ultimately show ?thesis using dest dflt by (simp add: norm_index_def)
qed

text \<open>
  \<^bold>\<open>C10.\<close> In every state reachable from the fresh machine by calls of \<^verbatim>\<open>load\<close>,
  \<^verbatim>\<open>get_register\<close> and \<^verbatim>\<open>control_unit\<close>, whether they return or raise, every entry of
  the cache is stored under its own key, for one of the eight known instructions, and
  its value is what the ALU computes for that instruction on the operands of the key.
\<close>

theorem cache_consistent:
  assumes "cache (run P init calls) c = Some ((instruction, a, b), v)"
  shows "c = key_class P (instruction, a, b) \<and> instruction \<in> set opcodes \<and>
         alu_dispatch P instruction a b = Inr v"
  using cache_ok_reachable [of P calls] assms unfolding cache_ok_def by blast

theorem cache_consistent_witness:
  "cache (run rational init [Load 0 (VInt 7), Load 1 (VInt 2), Execute ''DIV'' 0 1 (Some 2)])
     (''DIV'', Inl 7, Inl 2) = Some ((''DIV'', VInt 7, VInt 2), VOther (7 / 2))
   \<and> ''DIV'' \<in> set opcodes
   \<and> alu_dispatch rational ''DIV'' (VInt 7) (VInt 2) = Inr (VOther (7 / 2))"
proof -
  have e: "cache (run rational init [Load 0 (VInt 7), Load 1 (VInt 2), Execute ''DIV'' 0 1 (Some 2)])
     (''DIV'', Inl 7, Inl 2) = Some ((''DIV'', VInt 7, VInt 2), VOther (7 / 2))"
    by (simp add: eval_defs numeral_eq_Suc py_truediv_def rational_operator_def)
  from cache_consistent [OF e] e show ?thesis by simp
qed

end
